theory Spec2Isabelle
  imports Complex_Main "HOL-Library.Word" "HOL-Library.Log_Nat"
begin

section \<open>The float64 values the resolver computes with\<close>

text \<open>
  \<^verbatim>\<open>DenomCoefficient\<close> is a Go \<^verbatim>\<open>float64\<close>. A finite binary64 value is kept as the
  rational number it denotes; the two infinities and NaN are separate values. The sign of
  zero is not tracked: the resolver only compares the coefficient with \<^verbatim>\<open>1\<close> and never
  divides by a zero.
\<close>

datatype float64 = Finite rat | PosInf | NegInf | NaN

text \<open>Go's \<^verbatim>\<open>==\<close>, \<^verbatim>\<open>!=\<close> and \<^verbatim>\<open><\<close> on float64: NaN is unequal to everything.\<close>

definition f64_eq :: "float64 \<Rightarrow> float64 \<Rightarrow> bool" where
  "f64_eq x y = (x \<noteq> NaN \<and> y \<noteq> NaN \<and> x = y)"

definition f64_ne :: "float64 \<Rightarrow> float64 \<Rightarrow> bool" where
  "f64_ne x y = (\<not> f64_eq x y)"

fun f64_less :: "float64 \<Rightarrow> float64 \<Rightarrow> bool" where
  "f64_less NaN y = False"
| "f64_less x NaN = False"
| "f64_less x NegInf = False"
| "f64_less NegInf y = True"
| "f64_less PosInf y = False"
| "f64_less (Finite a) PosInf = True"
| "f64_less (Finite a) (Finite b) = (a < b)"

subsection \<open>Rounding to nearest, ties to even\<close>

text \<open>\<open>ilog2 q\<close> is the binary exponent of a positive rational: \<open>2^e \<le> q < 2^(e+1)\<close>.\<close>

definition ilog2 :: "rat \<Rightarrow> int" where
  "ilog2 q =
     (let (p, d) = quotient_of q; k = bitlen p - bitlen d
      in if power_int 2 k \<le> q then k else k - 1)"

definition round_half_even :: "rat \<Rightarrow> int" where
  "round_half_even x =
     (let f = \<lfloor>x\<rfloor>; r = x - of_int f
      in if r < 1 / 2 then f
         else if 1 / 2 < r then f + 1
         else if even f then f else f + 1)"

text \<open>
  A positive rational is rounded to a multiple of the unit in the last place of its binade
  (53 significant bits, smallest unit \<open>2^-1074\<close>); a result of \<open>2^1024\<close> or more is
  \<open>+Inf\<close>.
\<close>

definition round_pos :: "rat \<Rightarrow> float64" where
  "round_pos q =
     (let u = max (ilog2 q - 52) (- 1074);
          r = of_int (round_half_even (q / power_int 2 u)) * power_int 2 u
      in if 2 ^ 1024 \<le> r then PosInf else Finite r)"

definition f64_neg :: "float64 \<Rightarrow> float64" where
  "f64_neg x = (case x of Finite q \<Rightarrow> Finite (- q) | PosInf \<Rightarrow> NegInf
                 | NegInf \<Rightarrow> PosInf | NaN \<Rightarrow> NaN)"

definition round_f64 :: "rat \<Rightarrow> float64" where
  "round_f64 q =
     (if q = 0 then Finite 0
      else if 0 < q then round_pos q
      else f64_neg (round_pos (- q)))"

subsection \<open>Multiplication and division\<close>

definition f64_negative :: "float64 \<Rightarrow> bool" where
  "f64_negative x = (case x of Finite q \<Rightarrow> q < 0 | NegInf \<Rightarrow> True | _ \<Rightarrow> False)"

definition f64_inf :: "bool \<Rightarrow> float64" where
  "f64_inf negative = (if negative then NegInf else PosInf)"

definition f64_mul :: "float64 \<Rightarrow> float64 \<Rightarrow> float64" where
  "f64_mul x y =
     (case (x, y) of
        (Finite a, Finite b) \<Rightarrow> round_f64 (a * b)
      | _ \<Rightarrow> if x = NaN \<or> y = NaN \<or> x = Finite 0 \<or> y = Finite 0 then NaN
             else f64_inf (f64_negative x \<noteq> f64_negative y))"

definition f64_div :: "float64 \<Rightarrow> float64 \<Rightarrow> float64" where
  "f64_div x y =
     (case (x, y) of
        (Finite a, Finite b) \<Rightarrow>
          if b = 0 then (if a = 0 then NaN else f64_inf (a < 0))
          else round_f64 (a / b)
      | (Finite a, _) \<Rightarrow> if y = NaN then NaN else Finite 0
      | (_, Finite b) \<Rightarrow> if x = NaN then NaN else f64_inf (f64_negative x \<noteq> (b < 0))
      | _ \<Rightarrow> NaN)"

subsection \<open>\<^verbatim>\<open>math.Pow10\<close>\<close>

text \<open>
  \<^verbatim>\<open>math.Pow10\<close> belongs to the Go standard library, not to the repository. Its body is
  \<^verbatim>\<open>
  func Pow10(n int) float64 {
      if 0 <= n && n <= 308 {
          return pow10postab32[uint(n)/32] * pow10tab[uint(n)%32]
      }
      if -323 <= n && n <= 0 {
          return pow10negtab32[uint(-n)/32] / pow10tab[uint(-n)%32]
      }
      if n > 0 { return Inf(1) }
      return 0
  }
  \<close>
  where \<^verbatim>\<open>pow10tab\<close> holds the literals \<^verbatim>\<open>1e00 .. 1e31\<close>, \<^verbatim>\<open>pow10postab32\<close> the literals
  \<^verbatim>\<open>1e00, 1e32, .. 1e288\<close> and \<^verbatim>\<open>pow10negtab32\<close> the literals \<^verbatim>\<open>1e-00, 1e-32, .. 1e-320\<close>.
  A float64 literal is the decimal number rounded to nearest, ties to even.
\<close>

definition pow10tab :: "nat \<Rightarrow> float64" where
  "pow10tab i = round_f64 (10 ^ i)"

definition pow10postab32 :: "nat \<Rightarrow> float64" where
  "pow10postab32 i = round_f64 (10 ^ (32 * i))"

definition pow10negtab32 :: "nat \<Rightarrow> float64" where
  "pow10negtab32 i = round_f64 (1 / 10 ^ (32 * i))"

definition Pow10 :: "int \<Rightarrow> float64" where
  "Pow10 n =
     (if 0 \<le> n \<and> n \<le> 308 then
        f64_mul (pow10postab32 (nat n div 32)) (pow10tab (nat n mod 32))
      else if - 323 \<le> n \<and> n \<le> 0 then
        f64_div (pow10negtab32 (nat (- n) div 32)) (pow10tab (nat (- n) mod 32))
      else if 0 < n then PosInf
      else Finite 0)"

section \<open>The denomination resolver of \<^verbatim>\<open>main.go\<close>\<close>

text \<open>
  The bank module's \<^verbatim>\<open>DenomUnit\<close> and \<^verbatim>\<open>Metadata\<close>, with the fields \<^verbatim>\<open>setDenom\<close> reads.
\<close>

record DenomUnit =
  Denom :: string
  Exponent :: "32 word"

record Metadata =
  DenomUnits :: "DenomUnit list"
  Display :: string

text \<open>
  What \<^verbatim>\<open>bankClient.DenomsMetadata\<close> gives back: an error, or the response with its
  \<^verbatim>\<open>Metadatas\<close>.
\<close>

datatype node_reply = QueryError | Metadatas "Metadata list"

text \<open>The four \<^verbatim>\<open>log.Fatal()\<close> calls of the resolver; each one ends the process.\<close>

datatype fatal =
    BothProvided           \<comment> \<open>"denom-coefficient and denom-exponent are both provided. Must provide only one"\<close>
  | ErrorQueryingDenom     \<comment> \<open>"Error querying denom"\<close>
  | NoDenomInfos           \<comment> \<open>"No denom infos. Try running the binary with --denom and --denom-coefficient ..."\<close>
  | CouldNotFindDenomInfo  \<comment> \<open>"Could not find the denom info"\<close>

text \<open>
  The package-level variables the resolver reads and writes, and the number of
  \<^verbatim>\<open>DenomsMetadata\<close> queries sent to the node so far.
\<close>

record globals =
  Denom :: string
  DenomCoefficient :: float64
  DenomExponent :: "64 word"
  queries :: nat

text \<open>
  \<^verbatim>\<open>checkAndHandleDenomInfoProvidedByUser\<close> returns whether the operator's values settle the
  denomination. \<^verbatim>\<open>int(DenomExponent)\<close> converts a \<^verbatim>\<open>uint64\<close> to the 64-bit \<^verbatim>\<open>int\<close> of the
  build target (linux, 64-bit): the bits are kept, so values from \<open>2^63\<close> on become
  negative. Log output other than \<^verbatim>\<open>log.Fatal\<close> is left out.
\<close>

definition checkAndHandleDenomInfoProvidedByUser :: "globals \<Rightarrow> (fatal + bool) \<times> globals" where
  "checkAndHandleDenomInfoProvidedByUser g =
     (if globals.Denom g \<noteq> [] then
        if f64_ne (DenomCoefficient g) (Finite 1) \<and> DenomExponent g \<noteq> 0 then
          (Inl BothProvided, g)
        else if f64_ne (DenomCoefficient g) (Finite 1) then
          (Inr True, g)
        else if DenomExponent g \<noteq> 0 then
          (Inr True, g\<lparr>DenomCoefficient := Pow10 (sint (DenomExponent g))\<rparr>)
        else (Inr False, g)
      else (Inr False, g))"

text \<open>The loop over \<^verbatim>\<open>metadata.DenomUnits\<close>, and the \<^verbatim>\<open>log.Fatal\<close> after it.\<close>

fun scanDenomUnits :: "DenomUnit list \<Rightarrow> globals \<Rightarrow> (fatal + unit) \<times> globals" where
  "scanDenomUnits [] g = (Inl CouldNotFindDenomInfo, g)"
| "scanDenomUnits (unit # units) g =
     (if DenomUnit.Denom unit = globals.Denom g then
        (Inr (), g\<lparr>DenomCoefficient := Pow10 (uint (Exponent unit))\<rparr>)
      else scanDenomUnits units g)"

text \<open>
  \<^verbatim>\<open>setDenom\<close>: the node's answer is the parameter \<open>node\<close>; the call of
  \<^verbatim>\<open>bankClient.DenomsMetadata\<close> is counted in \<open>queries\<close>. \<^verbatim>\<open>int(unit.Exponent)\<close> converts a
  \<^verbatim>\<open>uint32\<close> and is never negative.
\<close>

definition setDenom :: "node_reply \<Rightarrow> globals \<Rightarrow> (fatal + unit) \<times> globals" where
  "setDenom node g =
     (case checkAndHandleDenomInfoProvidedByUser g of
        (Inl e, g1) \<Rightarrow> (Inl e, g1)
      | (Inr True, g1) \<Rightarrow> (Inr (), g1)
      | (Inr False, g1) \<Rightarrow>
          let g2 = g1\<lparr>queries := Suc (queries g1)\<rparr> in
          (case node of
             QueryError \<Rightarrow> (Inl ErrorQueryingDenom, g2)
           | Metadatas ms \<Rightarrow>
               (case ms of
                  [] \<Rightarrow> (Inl NoDenomInfos, g2)
                | metadata # rest \<Rightarrow>
                    scanDenomUnits (DenomUnits metadata)
                      (if globals.Denom g2 = [] then g2\<lparr>globals.Denom := Display metadata\<rparr>
                       else g2))))"


section \<open>Properties of the rounding\<close>

lemma ilog2_bounds:
  assumes "0 < q"
  shows "power_int 2 (ilog2 q) \<le> q \<and> q < power_int 2 (ilog2 q + 1)"
proof -
  obtain p d where pd: "quotient_of q = (p, d)" by (cases "quotient_of q")
  have d: "0 < d" using pd by (rule quotient_of_denom_pos)
  have q: "q = of_int p / of_int d" using pd by (rule quotient_of_div)
  have p: "0 < p" using assms d q by (simp add: zero_less_divide_iff)
  define a where "a = bitlen p"
  define b where "b = bitlen d"
  have a1: "1 \<le> a" using p bitlen_eq_zero_iff [of p] bitlen_nonneg [of p] by (simp add: a_def)
  have b1: "1 \<le> b" using d bitlen_eq_zero_iff [of d] bitlen_nonneg [of d] by (simp add: b_def)
  have pb: "2 ^ nat (a - 1) \<le> p" "p < 2 ^ nat a"
    using bitlen_bounds [OF p] by (simp_all add: a_def)
  have db: "2 ^ nat (b - 1) \<le> d" "d < 2 ^ nat b"
    using bitlen_bounds [OF d] by (simp_all add: b_def)
  have pl: "(power_int 2 (a - 1) :: rat) \<le> of_int p"
  proof -
    have "(of_int (2 ^ nat (a - 1)) :: rat) \<le> of_int p" using pb(1) by (simp only: of_int_le_iff)
    then show ?thesis using a1 by (simp add: power_int_def)
  qed
  have pu: "(of_int p :: rat) < power_int 2 a"
  proof -
    have "(of_int p :: rat) < of_int (2 ^ nat a)" using pb(2) by (simp only: of_int_less_iff)
    then show ?thesis using a1 by (simp add: power_int_def)
  qed
  have dl: "(power_int 2 (b - 1) :: rat) \<le> of_int d"
  proof -
    have "(of_int (2 ^ nat (b - 1)) :: rat) \<le> of_int d" using db(1) by (simp only: of_int_le_iff)
    then show ?thesis using b1 by (simp add: power_int_def)
  qed
  have du: "(of_int d :: rat) < power_int 2 b"
  proof -
    have "(of_int d :: rat) < of_int (2 ^ nat b)" using db(2) by (simp only: of_int_less_iff)
    then show ?thesis using b1 by (simp add: power_int_def)
  qed
  have dpos: "(0 :: rat) < of_int d" using d by simp
  have ppos: "(0 :: rat) < of_int p" using p by simp
  have lower: "power_int 2 (a - b - 1) < q"
  proof -
    have "(power_int 2 (a - b - 1) :: rat) * of_int d < power_int 2 (a - b - 1) * power_int 2 b"
      using du by (simp add: mult_strict_left_mono)
    also have "\<dots> = power_int 2 (a - 1)"
      by (simp add: power_int_add [symmetric])
    also have "\<dots> \<le> of_int p" by (rule pl)
    finally show ?thesis using dpos by (simp add: q pos_less_divide_eq)
  qed
  have upper: "q < power_int 2 (a - b + 1)"
  proof -
    have "(of_int p :: rat) < power_int 2 a" by (rule pu)
    also have "\<dots> = power_int 2 (a - b + 1) * power_int 2 (b - 1)"
      by (simp add: power_int_add [symmetric])
    also have "\<dots> \<le> power_int 2 (a - b + 1) * of_int d"
      using dl by (simp add: mult_left_mono)
    finally show ?thesis using dpos by (simp add: q pos_divide_less_eq)
  qed
  show ?thesis
  proof (cases "power_int 2 (a - b) \<le> q")
    case True
    then have "ilog2 q = a - b" by (simp add: ilog2_def pd a_def b_def)
    then show ?thesis using True upper by simp
  next
    case False
    then have "ilog2 q = a - b - 1" by (simp add: ilog2_def pd a_def b_def)
    then show ?thesis using False lower by simp
  qed
qed

lemma pow2_le_iff: "(power_int 2 a :: rat) \<le> power_int 2 b \<longleftrightarrow> a \<le> b"
proof
  assume h: "(power_int 2 a :: rat) \<le> power_int 2 b"
  show "a \<le> b"
  proof (rule ccontr)
    assume "\<not> a \<le> b"
    then have "b < a" by simp
    then have "(power_int 2 b :: rat) < power_int 2 a"
      by (intro power_int_strict_increasing) simp_all
    with h show False by simp
  qed
next
  assume "a \<le> b"
  then show "(power_int 2 a :: rat) \<le> power_int 2 b"
    by (intro power_int_increasing) simp_all
qed

lemma pow2_less_iff: "(power_int 2 a :: rat) < power_int 2 b \<longleftrightarrow> a < b"
  using pow2_le_iff [of b a] by (simp add: not_le [symmetric])

lemma ilog2_unique:
  assumes "0 < q" and "power_int 2 e \<le> q" and "q < power_int 2 (e + 1)"
  shows "ilog2 q = e"
proof -
  have b: "power_int 2 (ilog2 q) \<le> q" "q < power_int 2 (ilog2 q + 1)"
    using ilog2_bounds [OF assms(1)] by simp_all
  have "(power_int 2 e :: rat) < power_int 2 (ilog2 q + 1)" using assms(2) b(2) by (rule le_less_trans)
  then have 1: "e < ilog2 q + 1" by (simp only: pow2_less_iff)
  have "(power_int 2 (ilog2 q) :: rat) < power_int 2 (e + 1)" using b(1) assms(3) by (rule le_less_trans)
  then have 2: "ilog2 q < e + 1" by (simp only: pow2_less_iff)
  show ?thesis using 1 2 by simp
qed

subsection \<open>Rounding to an integer\<close>

lemma round_half_even_of_int: "round_half_even (of_int n) = n"
  by (simp add: round_half_even_def)

lemma round_half_even_ge: "of_int n \<le> x \<Longrightarrow> n \<le> round_half_even x"
proof -
  assume "of_int n \<le> x"
  then have "n \<le> \<lfloor>x\<rfloor>" by (simp add: le_floor_iff)
  then show ?thesis by (simp add: round_half_even_def Let_def)
qed

lemma round_half_even_le: "x \<le> of_int n \<Longrightarrow> round_half_even x \<le> n"
proof -
  assume h: "x \<le> of_int n"
  show ?thesis
  proof (cases "x = of_int n")
    case True
    then show ?thesis by (simp add: round_half_even_of_int)
  next
    case False
    with h have "x < of_int n" by simp
    then have "\<lfloor>x\<rfloor> < n" by (simp add: floor_less_iff)
    then show ?thesis by (simp add: round_half_even_def Let_def)
  qed
qed

lemma round_half_even_tie:
  "x = of_int n + 1 / 2 \<Longrightarrow> even n \<Longrightarrow> round_half_even x = n"
proof -
  assume x: "x = of_int n + 1 / 2" and e: "even n"
  have "\<lfloor>x\<rfloor> = n" unfolding x by (simp add: floor_unique)
  then show ?thesis using e by (simp add: round_half_even_def x)
qed


subsection \<open>Rounding a positive rational\<close>

lemma round_pos_lower:
  assumes q: "0 < q" and k: "- 1022 \<le> k" and le: "power_int 2 k \<le> q"
  shows "round_pos q = PosInf \<or> (\<exists>r. round_pos q = Finite r \<and> power_int 2 k \<le> r)"
proof -
  define e where "e = ilog2 q"
  have b: "power_int 2 e \<le> q" "q < power_int 2 (e + 1)"
    using ilog2_bounds [OF q] by (simp_all add: e_def)
  have "(power_int 2 k :: rat) < power_int 2 (e + 1)" using le b(2) by (rule le_less_trans)
  then have ke: "k \<le> e" by (simp add: pow2_less_iff)
  define u where "u = e - 52"
  have u: "max (ilog2 q - 52) (- 1074) = u" using ke k by (simp add: u_def e_def)
  define n where "n = round_half_even (q / power_int 2 u)"
  have upos: "(0 :: rat) < power_int 2 u" by simp
  have "(of_int (2 ^ 52) :: rat) * power_int 2 u = power_int 2 e"
    by (simp add: u_def power_int_diff)
  also have "\<dots> \<le> q" by (rule b(1))
  finally have "(of_int (2 ^ 52) :: rat) \<le> q / power_int 2 u"
    using upos by (simp only: pos_le_divide_eq)
  then have n52: "2 ^ 52 \<le> n" unfolding n_def by (rule round_half_even_ge)
  have "(power_int 2 k :: rat) \<le> power_int 2 e" using ke by (simp add: pow2_le_iff)
  also have "\<dots> = of_int (2 ^ 52) * power_int 2 u" by (simp add: u_def power_int_diff)
  also have "\<dots> \<le> of_int n * power_int 2 u"
    using n52 upos by (intro mult_right_mono) (simp_all only: of_int_le_iff less_imp_le)
  finally have r: "(power_int 2 k :: rat) \<le> of_int n * power_int 2 u" .
  show ?thesis using r by (simp add: round_pos_def u n_def [symmetric] Let_def)
qed

lemma round_pos_upper:
  assumes q: "0 < q" and k: "- 1074 \<le> k" "k \<le> 1023" and le: "q \<le> power_int 2 k"
  shows "\<exists>r. round_pos q = Finite r \<and> 0 \<le> r \<and> r \<le> power_int 2 k"
proof -
  define e where "e = ilog2 q"
  have b: "power_int 2 e \<le> q" "q < power_int 2 (e + 1)"
    using ilog2_bounds [OF q] by (simp_all add: e_def)
  have "(power_int 2 e :: rat) \<le> power_int 2 k" using b(1) le by (rule order_trans)
  then have ek: "e \<le> k" by (simp add: pow2_le_iff)
  define u where "u = max (e - 52) (- 1074)"
  have uk: "u \<le> k" using ek k by (simp add: u_def)
  define n where "n = round_half_even (q / power_int 2 u)"
  have upos: "(0 :: rat) < power_int 2 u" by simp
  have ku: "(power_int 2 k :: rat) = of_int (2 ^ nat (k - u)) * power_int 2 u"
  proof -
    have "(of_int (2 ^ nat (k - u)) :: rat) = power_int 2 (k - u)"
      using uk by (simp add: power_int_def)
    then show ?thesis by (simp add: power_int_add [symmetric])
  qed
  have "q / power_int 2 u \<le> of_int (2 ^ nat (k - u))"
    using le upos by (simp only: ku pos_divide_le_eq)
  then have nle: "n \<le> 2 ^ nat (k - u)" unfolding n_def by (rule round_half_even_le)
  have "(of_int 0 :: rat) \<le> q / power_int 2 u" using q upos by simp
  then have n0: "0 \<le> n" unfolding n_def by (rule round_half_even_ge)
  have r0: "(0 :: rat) \<le> of_int n * power_int 2 u" using n0 by simp
  have "(of_int n :: rat) * power_int 2 u \<le> of_int (2 ^ nat (k - u)) * power_int 2 u"
    using nle upos by (intro mult_right_mono) (simp_all only: of_int_le_iff less_imp_le)
  then have rk: "(of_int n :: rat) * power_int 2 u \<le> power_int 2 k" by (simp only: ku)
  have "(power_int 2 k :: rat) < power_int 2 1024" using k by (simp only: pow2_less_iff)
  then have "(of_int n :: rat) * power_int 2 u < 2 ^ 1024" using rk by simp
  then show ?thesis using r0 rk
    by (simp add: round_pos_def e_def [symmetric] u_def [symmetric] n_def [symmetric] Let_def)
qed

lemma round_pos_exact:
  assumes m: "0 < m" "m < 2 ^ 53" and lt: "(of_int m :: rat) * 2 ^ j < 2 ^ 1024"
  shows "round_pos (of_int m * 2 ^ j) = Finite (of_int m * 2 ^ j)"
proof -
  define q :: rat where "q = of_int m * 2 ^ j"
  have q: "0 < q" using m by (simp add: q_def)
  define e where "e = ilog2 q"
  have b: "power_int 2 e \<le> q" "q < power_int 2 (e + 1)"
    using ilog2_bounds [OF q] by (simp_all add: e_def)
  have j: "(2 :: rat) ^ j = power_int 2 (int j)" by simp
  have "q < of_int (2 ^ 53) * 2 ^ j"
    unfolding q_def using m(2) by (intro mult_strict_right_mono) (simp_all only: of_int_less_iff zero_less_power zero_less_numeral)
  also have "\<dots> = power_int 2 (53 + int j)" by (simp add: power_int_add)
  finally have "(power_int 2 e :: rat) < power_int 2 (53 + int j)" using b(1) by simp
  then have e1: "e < 53 + int j" by (simp only: pow2_less_iff)
  have "(power_int 2 (int j) :: rat) = of_int 1 * 2 ^ j" by simp
  also have "\<dots> \<le> q"
    unfolding q_def using m(1) by (intro mult_right_mono) simp_all
  finally have "(power_int 2 (int j) :: rat) < power_int 2 (e + 1)" using b(2) by simp
  then have "int j < e + 1" by (simp only: pow2_less_iff)
  then have e2: "int j \<le> e" by simp
  define u where "u = e - 52"
  have u: "max (ilog2 q - 52) (- 1074) = u" using e2 by (simp add: u_def e_def)
  have ju: "u \<le> int j" using e1 by (simp add: u_def)
  have "q / power_int 2 u = of_int m * (power_int 2 (int j) / power_int 2 u)"
    by (simp add: q_def)
  also have "power_int 2 (int j) / power_int 2 u = (power_int 2 (int j - u) :: rat)"
    by (simp add: power_int_diff)
  also have "\<dots> = of_int (2 ^ nat (int j - u))" using ju by (simp add: power_int_def)
  finally have x: "q / power_int 2 u = of_int (m * 2 ^ nat (int j - u))" by simp
  have n: "round_half_even (q / power_int 2 u) = m * 2 ^ nat (int j - u)"
    by (simp only: x round_half_even_of_int)
  have "(of_int (m * 2 ^ nat (int j - u)) :: rat) * power_int 2 u
        = of_int m * (power_int 2 (int j - u) * power_int 2 u)"
    using ju by (simp add: power_int_def)
  also have "\<dots> = q" by (simp add: power_int_add [symmetric] q_def)
  finally have r: "(of_int (m * 2 ^ nat (int j - u)) :: rat) * power_int 2 u = q" .
  have "\<not> 2 ^ 1024 \<le> q" using lt by (simp add: q_def)
  then have "round_pos q = Finite q"
    by (simp only: round_pos_def u n r Let_def if_False)
  then show ?thesis by (simp only: q_def)
qed

subsection \<open>The tables of powers of ten\<close>

lemma round_f64_between:
  assumes q: "0 < q" and lo: "power_int 2 k \<le> q" "- 1022 \<le> k"
    and hi: "q \<le> power_int 2 l" "l \<le> 1023"
  shows "\<exists>r. round_f64 q = Finite r \<and> power_int 2 k \<le> r \<and> r \<le> power_int 2 l"
proof -
  have "(power_int 2 k :: rat) \<le> power_int 2 l" using lo(1) hi(1) by (rule order_trans)
  then have "k \<le> l" by (simp only: pow2_le_iff)
  then have l: "- 1074 \<le> l" using lo(2) by simp
  obtain r where r: "round_pos q = Finite r" "r \<le> power_int 2 l"
    using round_pos_upper [OF q l hi(2) hi(1)] by blast
  have "power_int 2 k \<le> r" using round_pos_lower [OF q lo(2) lo(1)] r(1) by simp
  then show ?thesis using q r by (simp add: round_f64_def)
qed


lemma round_f64_exact:
  assumes "0 < m" "m < 2 ^ 53" "(of_int m :: rat) * 2 ^ j < 2 ^ 1024"
  shows "round_f64 (of_int m * 2 ^ j) = Finite (of_int m * 2 ^ j)"
proof -
  have "(0 :: rat) < of_int m * 2 ^ j" using assms(1) by simp
  then show ?thesis using round_pos_exact [OF assms] by (simp add: round_f64_def)
qed

lemma round_f64_one: "round_f64 1 = Finite 1"
  using round_f64_exact [of 1 0] by simp

lemma round_f64_pow10:
  assumes "n \<le> 22"
  shows "round_f64 (10 ^ n) = Finite (10 ^ n)"
proof -
  have "(5 :: int) ^ n \<le> 5 ^ 22" using assms by (intro power_increasing) simp_all
  also have "\<dots> < 2 ^ 53" by simp
  finally have m: "(5 :: int) ^ n < 2 ^ 53" .
  have eq: "(of_int (5 ^ n) :: rat) * 2 ^ n = 10 ^ n"
    by (simp add: power_mult_distrib [symmetric])
  have "(10 :: rat) ^ n \<le> 10 ^ 22" using assms by (intro power_increasing) simp_all
  also have "\<dots> < 2 ^ 1024" by simp
  finally have lt: "(of_int (5 ^ n) :: rat) * 2 ^ n < 2 ^ 1024" by (simp only: eq)
  have "0 < (5 :: int) ^ n" by simp
  from round_f64_exact [OF this m lt] show ?thesis by (simp only: eq)
qed

lemma pow10tab_bounds:
  assumes "i < 32"
  shows "\<exists>a. pow10tab i = Finite a \<and> 1 \<le> a \<and> (0 < i \<longrightarrow> 8 \<le> a)"
proof -
  have "(10 :: rat) ^ i \<le> 10 ^ 31" using assms by (intro power_increasing) simp_all
  also have "\<dots> \<le> power_int 2 103" by simp
  finally have hi: "(10 :: rat) ^ i \<le> power_int 2 103" .
  have pos: "(0 :: rat) < 10 ^ i" by simp
  show ?thesis
  proof (cases "0 < i")
    case True
    then have "(10 :: rat) ^ 1 \<le> 10 ^ i" by (intro power_increasing) simp_all
    then have lo: "(power_int 2 3 :: rat) \<le> 10 ^ i" by simp
    from round_f64_between [OF pos lo _ hi] show ?thesis by (auto simp: pow10tab_def)
  next
    case False
    then have "i = 0" by simp
    then show ?thesis by (simp add: pow10tab_def round_f64_one)
  qed
qed

lemma pow10postab32_bounds:
  assumes "i \<le> 9"
  shows "\<exists>a. pow10postab32 i = Finite a \<and> 1 \<le> a \<and> (0 < i \<longrightarrow> 8 \<le> a)"
proof -
  have "(10 :: rat) ^ (32 * i) \<le> 10 ^ 288" using assms by (intro power_increasing) simp_all
  also have "\<dots> \<le> power_int 2 957" by simp
  finally have hi: "(10 :: rat) ^ (32 * i) \<le> power_int 2 957" .
  have pos: "(0 :: rat) < 10 ^ (32 * i)" by simp
  show ?thesis
  proof (cases "0 < i")
    case True
    then have "(10 :: rat) ^ 1 \<le> 10 ^ (32 * i)" by (intro power_increasing) simp_all
    then have lo: "(power_int 2 3 :: rat) \<le> 10 ^ (32 * i)" by simp
    from round_f64_between [OF pos lo _ hi] show ?thesis by (auto simp: pow10postab32_def)
  next
    case False
    then have "i = 0" by simp
    then show ?thesis by (simp add: pow10postab32_def round_f64_one)
  qed
qed


section \<open>Properties of \<^verbatim>\<open>math.Pow10\<close>\<close>

lemma round_f64_pos: "0 < q \<Longrightarrow> round_f64 q = round_pos q"
  by (simp add: round_f64_def)

lemma Pow10_large: "308 < n \<Longrightarrow> Pow10 n = PosInf"
  by (simp add: Pow10_def)


lemma Pow10_nonneg:
  assumes "0 \<le> n"
  shows "Pow10 n = PosInf \<or> (\<exists>r. Pow10 n = Finite r \<and> 1 \<le> r \<and> (0 < n \<longrightarrow> 8 \<le> r))"
proof (cases "n \<le> 308")
  case False
  then show ?thesis by (simp add: Pow10_large)
next
  case True
  define j where "j = nat n div 32"
  define i where "i = nat n mod 32"
  have j: "j \<le> 9" using True assms by (simp add: j_def)
  have i: "i < 32" by (simp add: i_def)
  obtain a where a: "pow10postab32 j = Finite a" "1 \<le> a" "0 < j \<longrightarrow> 8 \<le> a"
    using pow10postab32_bounds [OF j] by blast
  obtain b where b: "pow10tab i = Finite b" "1 \<le> b" "0 < i \<longrightarrow> 8 \<le> b"
    using pow10tab_bounds [OF i] by blast
  have P: "Pow10 n = round_f64 (a * b)"
    using True assms a(1) b(1) by (simp add: Pow10_def j_def i_def f64_mul_def)
  have a0: "0 \<le> a" and b0: "0 \<le> b" using a(2) b(2) by simp_all
  have "1 * 1 \<le> a * b" using a(2) b(2) by (intro mult_mono) simp_all
  then have ab1: "1 \<le> a * b" by simp
  have ab8: "8 \<le> a * b" if "0 < n"
  proof -
    have "nat n = 32 * j + i" by (simp add: j_def i_def)
    then have "0 < j \<or> 0 < i" using that by arith
    then show ?thesis
    proof
      assume "0 < j"
      then have "8 \<le> a" using a(3) by simp
      then have "8 * 1 \<le> a * b" using b(2) a0 by (intro mult_mono) simp_all
      then show ?thesis by simp
    next
      assume "0 < i"
      then have "8 \<le> b" using b(3) by simp
      then have "1 * 8 \<le> a * b" using a(2) by (intro mult_mono) simp_all
      then show ?thesis by simp
    qed
  qed
  have pos: "0 < a * b" using ab1 by simp
  have R: "round_f64 (a * b) = round_pos (a * b)" using pos by (rule round_f64_pos)
  show ?thesis
  proof (cases "0 < n")
    case False
    have "(power_int 2 0 :: rat) \<le> a * b" using ab1 by simp
    from round_pos_lower [OF pos _ this] False show ?thesis by (simp add: P R)
  next
    case True
    have "(power_int 2 3 :: rat) \<le> a * b" using ab8 [OF True] by simp
    from round_pos_lower [OF pos _ this] show ?thesis by (auto simp add: P R)
  qed
qed


lemma Pow10_zero: "Pow10 0 = Finite 1"
  by (simp add: Pow10_def pow10postab32_def pow10tab_def round_f64_one f64_mul_def)


lemma Pow10_positive: "0 \<le> n \<Longrightarrow> f64_less (Finite 0) (Pow10 n)"
  using Pow10_nonneg [of n] by auto

lemma Pow10_exact:
  assumes "0 \<le> n" "n \<le> 22"
  shows "Pow10 n = Finite (10 ^ nat n)"
proof -
  have n: "nat n \<le> 22" using assms by simp
  have d: "nat n div 32 = 0" "nat n mod 32 = nat n" using n by simp_all
  have "Pow10 n = f64_mul (round_f64 1) (round_f64 (10 ^ nat n))"
    using assms by (simp add: Pow10_def d pow10postab32_def pow10tab_def)
  also have "\<dots> = round_f64 (10 ^ nat n)"
    by (simp add: round_f64_one round_f64_pow10 [OF n] f64_mul_def)
  finally show ?thesis by (simp only: round_f64_pow10 [OF n])
qed

lemma round_pos_eval:
  assumes "0 < q" and "ilog2 q = e" and "max (e - 52) (- 1074) = u"
    and "round_half_even (q / power_int 2 u) = n"
    and "of_int n * power_int 2 u = r" and "r < 2 ^ 1024"
  shows "round_f64 q = Finite r"
  using assms by (simp add: round_f64_def round_pos_def)

lemma round_f64_1e23: "round_f64 (10 ^ 23) = Finite 99999999999999991611392"
proof -
  have p: "(0 :: rat) < 10 ^ 23" by simp
  have e: "ilog2 (10 ^ 23) = 76" by (rule ilog2_unique) simp_all
  have u: "max (76 - 52) (- 1074) = (24 :: int)" by simp
  have x: "(10 :: rat) ^ 23 / power_int 2 24 = of_int 5960464477539062 + 1 / 2" by simp
  have n: "round_half_even (10 ^ 23 / power_int 2 24) = 5960464477539062"
    using x by (rule round_half_even_tie) simp
  show ?thesis by (rule round_pos_eval [OF p e u n]) simp_all
qed

lemma Pow10_23: "Pow10 23 = Finite 99999999999999991611392"
proof -
  have "round_f64 (of_int 5960464477539062 * 2 ^ 24) = Finite (of_int 5960464477539062 * 2 ^ 24)"
    by (rule round_f64_exact) simp_all
  then have r: "round_f64 99999999999999991611392 = Finite 99999999999999991611392" by simp
  have t: "pow10tab 23 = Finite 99999999999999991611392"
    unfolding pow10tab_def by (rule round_f64_1e23)
  have p: "pow10postab32 0 = Finite 1" by (simp add: pow10postab32_def round_f64_one)
  have "Pow10 23 = f64_mul (pow10postab32 0) (pow10tab 23)" by (simp add: Pow10_def)
  also have "\<dots> = round_f64 99999999999999991611392"
    by (simp only: p t f64_mul_def prod.case float64.case mult_1)
  finally show ?thesis by (simp only: r)
qed

section \<open>Facts about the resolver\<close>

lemma f64_ne_one: "f64_ne x (Finite 1) \<longleftrightarrow> x \<noteq> Finite 1"
  by (auto simp: f64_ne_def f64_eq_def)

lemma check_no_symbol:
  "globals.Denom g = [] \<Longrightarrow> checkAndHandleDenomInfoProvidedByUser g = (Inr False, g)"
  by (simp add: checkAndHandleDenomInfoProvidedByUser_def)

lemma check_defaults:
  "DenomCoefficient g = Finite 1 \<Longrightarrow> DenomExponent g = 0 \<Longrightarrow>
   checkAndHandleDenomInfoProvidedByUser g = (Inr False, g)"
  by (simp add: checkAndHandleDenomInfoProvidedByUser_def f64_ne_one)

lemma check_falls_through:
  "globals.Denom g = [] \<or> (DenomCoefficient g = Finite 1 \<and> DenomExponent g = 0) \<Longrightarrow>
   checkAndHandleDenomInfoProvidedByUser g = (Inr False, g)"
  using check_no_symbol check_defaults by blast

lemma check_coefficient:
  "globals.Denom g \<noteq> [] \<Longrightarrow> DenomCoefficient g \<noteq> Finite 1 \<Longrightarrow> DenomExponent g = 0 \<Longrightarrow>
   checkAndHandleDenomInfoProvidedByUser g = (Inr True, g)"
  by (simp add: checkAndHandleDenomInfoProvidedByUser_def f64_ne_one)

lemma check_exponent:
  "globals.Denom g \<noteq> [] \<Longrightarrow> DenomCoefficient g = Finite 1 \<Longrightarrow> DenomExponent g \<noteq> 0 \<Longrightarrow>
   checkAndHandleDenomInfoProvidedByUser g =
     (Inr True, g\<lparr>DenomCoefficient := Pow10 (sint (DenomExponent g))\<rparr>)"
  by (simp add: checkAndHandleDenomInfoProvidedByUser_def f64_ne_one)

lemma check_both:
  "globals.Denom g \<noteq> [] \<Longrightarrow> DenomCoefficient g \<noteq> Finite 1 \<Longrightarrow> DenomExponent g \<noteq> 0 \<Longrightarrow>
   checkAndHandleDenomInfoProvidedByUser g = (Inl BothProvided, g)"
  by (simp add: checkAndHandleDenomInfoProvidedByUser_def f64_ne_one)

lemma check_handled:
  assumes "checkAndHandleDenomInfoProvidedByUser g = (Inr True, g')"
  shows "globals.Denom g \<noteq> [] \<and>
         (DenomCoefficient g \<noteq> Finite 1 \<and> DenomExponent g = 0 \<and> g' = g \<or>
          DenomCoefficient g = Finite 1 \<and> DenomExponent g \<noteq> 0 \<and>
            g' = g\<lparr>DenomCoefficient := Pow10 (sint (DenomExponent g))\<rparr>)"
  using assms
  by (auto simp: checkAndHandleDenomInfoProvidedByUser_def f64_ne_one split: if_splits)

lemma scanDenomUnits_find:
  "scanDenomUnits units g =
     (case find (\<lambda>unit. DenomUnit.Denom unit = globals.Denom g) units of
        None \<Rightarrow> (Inl CouldNotFindDenomInfo, g)
      | Some unit \<Rightarrow> (Inr (), g\<lparr>DenomCoefficient := Pow10 (uint (Exponent unit))\<rparr>))"
  by (induction units) simp_all

lemma scanDenomUnits_absent:
  "globals.Denom g \<notin> DenomUnit.Denom ` set units \<Longrightarrow>
   scanDenomUnits units g = (Inl CouldNotFindDenomInfo, g)"
  by (induction units) auto

lemma scanDenomUnits_first:
  "\<forall>v\<in>set pre. DenomUnit.Denom v \<noteq> globals.Denom g \<Longrightarrow> DenomUnit.Denom u = globals.Denom g \<Longrightarrow>
   scanDenomUnits (pre @ u # post) g = (Inr (), g\<lparr>DenomCoefficient := Pow10 (uint (Exponent u))\<rparr>)"
  by (induction pre) auto

lemma scanDenomUnits_returns:
  "scanDenomUnits units g = (Inr (), g') \<Longrightarrow>
   \<exists>unit\<in>set units. g' = g\<lparr>DenomCoefficient := Pow10 (uint (Exponent unit))\<rparr>"
  by (induction units) (auto split: if_splits)

lemma scanDenomUnits_keeps:
  "globals.Denom (snd (scanDenomUnits units g)) = globals.Denom g \<and>
   queries (snd (scanDenomUnits units g)) = queries g"
  by (induction units) auto

lemma setDenom_query:
  assumes "checkAndHandleDenomInfoProvidedByUser g = (Inr False, g)"
  shows "setDenom node g =
     (case node of
        QueryError \<Rightarrow> (Inl ErrorQueryingDenom, g\<lparr>queries := Suc (queries g)\<rparr>)
      | Metadatas [] \<Rightarrow> (Inl NoDenomInfos, g\<lparr>queries := Suc (queries g)\<rparr>)
      | Metadatas (metadata # rest) \<Rightarrow>
          scanDenomUnits (DenomUnits metadata)
            (g\<lparr>queries := Suc (queries g),
               globals.Denom := (if globals.Denom g = [] then Display metadata else globals.Denom g)\<rparr>))"
  using assms by (simp add: setDenom_def Let_def split: node_reply.split list.split)

lemma sint_small: "uint (e :: 64 word) < 2 ^ 63 \<Longrightarrow> sint e = uint e"
proof -
  assume lt: "uint e < 2 ^ 63"
  have "- (2 ^ 63) \<le> (0 :: int)" by simp
  also have "0 \<le> uint e" by simp
  finally have "signed_take_bit 63 (uint e) = uint e"
    using lt by (rule signed_take_bit_int_eq_self)
  then show ?thesis by (simp add: sint_uint)
qed


section \<open>The claims\<close>

text \<open>
  C1. A non-empty symbol with a coefficient other than the default \<open>1\<close> and the exponent
  left at its default \<open>0\<close>: \<^verbatim>\<open>setDenom\<close> returns with every global as it was (symbol and
  coefficient unchanged) and with no query sent, whatever the node would have answered.
\<close>

theorem C1_coefficient_override_unchanged:
  assumes "globals.Denom g \<noteq> []" and "DenomCoefficient g \<noteq> Finite 1" and "DenomExponent g = 0"
  shows "setDenom node g = (Inr (), g)"
  using check_coefficient [OF assms] by (simp add: setDenom_def)

theorem C1_witness:
  "setDenom QueryError
     \<lparr>globals.Denom = ''umee'', DenomCoefficient = Finite 1000000, DenomExponent = 0, queries = 0\<rparr>
   = (Inr (),
     \<lparr>globals.Denom = ''umee'', DenomCoefficient = Finite 1000000, DenomExponent = 0, queries = 0\<rparr>)"
  using C1_coefficient_override_unchanged
    [of "\<lparr>globals.Denom = ''umee'', DenomCoefficient = Finite 1000000, DenomExponent = 0, queries = 0\<rparr>"
        QueryError]
  by simp

text \<open>
  C2, as amended. When \<^verbatim>\<open>setDenom\<close> returns, the coefficient is greater than zero provided
  that a coefficient override, if one was used, was itself greater than zero, and that an
  exponent override, if one was used, was below \<open>2^63\<close>. A coefficient taken from the node
  registry is always greater than zero (it may be \<open>+Inf\<close>).
\<close>

theorem C2_resolved_coefficient_positive:
  assumes "setDenom node g = (Inr (), g')"
    and "globals.Denom g \<noteq> [] \<and> DenomCoefficient g \<noteq> Finite 1
           \<longrightarrow> f64_less (Finite 0) (DenomCoefficient g)"
    and "globals.Denom g \<noteq> [] \<and> DenomCoefficient g = Finite 1 \<and> DenomExponent g \<noteq> 0
           \<longrightarrow> 0 \<le> sint (DenomExponent g)"
  shows "f64_less (Finite 0) (DenomCoefficient g')"
proof (cases "checkAndHandleDenomInfoProvidedByUser g")
  case (Pair r g1)
  show ?thesis
  proof (cases r)
    case (Inl e)
    with Pair assms(1) show ?thesis by (simp add: setDenom_def)
  next
    case (Inr handled)
    show ?thesis
    proof (cases handled)
      case True
      with Pair Inr have c: "checkAndHandleDenomInfoProvidedByUser g = (Inr True, g1)" by simp
      then have g': "g' = g1" using assms(1) by (simp add: setDenom_def)
      from check_handled [OF c] have sym: "globals.Denom g \<noteq> []"
        and alt: "DenomCoefficient g \<noteq> Finite 1 \<and> DenomExponent g = 0 \<and> g1 = g \<or>
          DenomCoefficient g = Finite 1 \<and> DenomExponent g \<noteq> 0 \<and>
            g1 = g\<lparr>DenomCoefficient := Pow10 (sint (DenomExponent g))\<rparr>"
        by simp_all
      from alt show ?thesis
      proof
        assume "DenomCoefficient g \<noteq> Finite 1 \<and> DenomExponent g = 0 \<and> g1 = g"
        then show ?thesis using assms(2) sym g' by simp
      next
        assume h: "DenomCoefficient g = Finite 1 \<and> DenomExponent g \<noteq> 0 \<and>
            g1 = g\<lparr>DenomCoefficient := Pow10 (sint (DenomExponent g))\<rparr>"
        then have "0 \<le> sint (DenomExponent g)" using assms(3) sym by simp
        then show ?thesis using h g' by (simp add: Pow10_positive)
      qed
    next
      case False
      with Pair Inr have c: "checkAndHandleDenomInfoProvidedByUser g = (Inr False, g1)" by simp
      then have "g1 = g"
        by (auto simp: checkAndHandleDenomInfoProvidedByUser_def split: if_splits)
      with c have c': "checkAndHandleDenomInfoProvidedByUser g = (Inr False, g)" by simp
      from assms(1) obtain units g2 where "scanDenomUnits units g2 = (Inr (), g')"
        unfolding setDenom_query [OF c']
        by (auto split: node_reply.splits list.splits)
      from scanDenomUnits_returns [OF this] obtain u :: DenomUnit
        where "g' = g2\<lparr>DenomCoefficient := Pow10 (uint (Exponent u))\<rparr>" by auto
      then show ?thesis by (simp add: Pow10_positive)
    qed
  qed
qed

text \<open>
  Witness for C2: scenario A of the specification (no overrides, the registry holds
  \<^verbatim>\<open>uumee\<close> with exponent 0 and \<^verbatim>\<open>umee\<close> with exponent 6) resolves to \<^verbatim>\<open>uumee\<close>, coefficient 1.
\<close>

theorem C2_witness:
  "setDenom
     (Metadatas [\<lparr>DenomUnits = [\<lparr>DenomUnit.Denom = ''uumee'', Exponent = 0\<rparr>,
                                 \<lparr>DenomUnit.Denom = ''umee'', Exponent = 6\<rparr>],
                  Display = ''uumee''\<rparr>])
     \<lparr>globals.Denom = [], DenomCoefficient = Finite 1, DenomExponent = 0, queries = 0\<rparr>
   = (Inr (), \<lparr>globals.Denom = ''uumee'', DenomCoefficient = Finite 1, DenomExponent = 0,
                queries = 1\<rparr>)
   \<and> f64_less (Finite 0) (Finite 1)"
proof -
  let ?node = "Metadatas [\<lparr>DenomUnits = [\<lparr>DenomUnit.Denom = ''uumee'', Exponent = 0\<rparr>,
                                 \<lparr>DenomUnit.Denom = ''umee'', Exponent = 6\<rparr>],
                  Display = ''uumee''\<rparr>]"
  let ?g = "\<lparr>globals.Denom = [], DenomCoefficient = Finite 1, DenomExponent = 0, queries = 0\<rparr>"
  let ?g' = "\<lparr>globals.Denom = ''uumee'', DenomCoefficient = Finite 1, DenomExponent = 0,
                queries = 1\<rparr>"
  have run: "setDenom ?node ?g = (Inr (), ?g')"
    by (simp add: setDenom_def checkAndHandleDenomInfoProvidedByUser_def Pow10_zero)
  have "f64_less (Finite 0) (DenomCoefficient ?g')"
    using run by (rule C2_resolved_coefficient_positive) simp_all
  then show ?thesis using run by simp
qed

text \<open>
  The claim C2 as stated fails: started without flags, \<^verbatim>\<open>main\<close> leaves \<^verbatim>\<open>Denom\<close> at the
  default of the flag bound to it and \<^verbatim>\<open>DenomCoefficient\<close> at Go's zero value; \<^verbatim>\<open>setDenom\<close>
  takes the \<open>0\<close> for a supplied coefficient and returns with it.
\<close>

theorem C2_counterexample:
  "setDenom (Metadatas [])
     \<lparr>globals.Denom = ''http://127.0.0.1:1317'', DenomCoefficient = Finite 0, DenomExponent = 0,
      queries = 0\<rparr>
   = (Inr (),
     \<lparr>globals.Denom = ''http://127.0.0.1:1317'', DenomCoefficient = Finite 0, DenomExponent = 0,
      queries = 0\<rparr>)
   \<and> \<not> f64_less (Finite 0) (Finite 0)"
  by (simp add: setDenom_def checkAndHandleDenomInfoProvidedByUser_def f64_ne_one)

text \<open>
  C3. A non-empty symbol with both a coefficient other than \<open>1\<close> and an exponent other than
  \<open>0\<close>: \<^verbatim>\<open>setDenom\<close> ends the process with the "both provided" message, and no query has
  been sent (the globals, the query counter among them, are as they were).
\<close>

theorem C3_both_overrides_fatal:
  assumes "globals.Denom g \<noteq> []" and "DenomCoefficient g \<noteq> Finite 1" and "DenomExponent g \<noteq> 0"
  shows "setDenom node g = (Inl BothProvided, g)"
  using check_both [OF assms] by (simp add: setDenom_def)

theorem C3_witness:
  "setDenom (Metadatas [])
     \<lparr>globals.Denom = ''umee'', DenomCoefficient = Finite 1000000, DenomExponent = 6, queries = 0\<rparr>
   = (Inl BothProvided,
     \<lparr>globals.Denom = ''umee'', DenomCoefficient = Finite 1000000, DenomExponent = 6, queries = 0\<rparr>)"
  using C3_both_overrides_fatal
    [of "\<lparr>globals.Denom = ''umee'', DenomCoefficient = Finite 1000000, DenomExponent = 6, queries = 0\<rparr>"
        "Metadatas []"]
  by simp

text \<open>
  C4, as amended. A non-empty symbol with the coefficient at its default and an exponent
  from 1 to 22: \<^verbatim>\<open>setDenom\<close> returns with the coefficient exactly \<open>10 ^ exponent\<close>, the other
  globals as they were and no query sent.
\<close>

theorem C4_exponent_override_exact_upto_22:
  assumes "globals.Denom g \<noteq> []" and "DenomCoefficient g = Finite 1"
    and "DenomExponent g \<noteq> 0" and "unat (DenomExponent g) \<le> 22"
  shows "setDenom node g =
           (Inr (), g\<lparr>DenomCoefficient := Finite (10 ^ unat (DenomExponent g))\<rparr>)"
proof -
  have u: "uint (DenomExponent g) \<le> 22"
    unfolding uint_nat using assms(4) by linarith
  have s: "sint (DenomExponent g) = uint (DenomExponent g)"
    using u by (intro sint_small) simp
  have "Pow10 (sint (DenomExponent g)) = Finite (10 ^ nat (uint (DenomExponent g)))"
    unfolding s using u by (intro Pow10_exact) simp_all
  then show ?thesis
    using check_exponent [OF assms(1-3)] by (simp add: setDenom_def)
qed

text \<open>Witness for C4: scenario B of the specification, \<^verbatim>\<open>umee\<close> with exponent 6.\<close>

theorem C4_witness:
  "setDenom QueryError
     \<lparr>globals.Denom = ''umee'', DenomCoefficient = Finite 1, DenomExponent = 6, queries = 0\<rparr>
   = (Inr (),
     \<lparr>globals.Denom = ''umee'', DenomCoefficient = Finite 1000000, DenomExponent = 6, queries = 0\<rparr>)"
  using C4_exponent_override_exact_upto_22
    [of "\<lparr>globals.Denom = ''umee'', DenomCoefficient = Finite 1, DenomExponent = 6, queries = 0\<rparr>"
        QueryError]
  by simp

text \<open>
  The claim C4 as stated fails from exponent 23 on: \<open>10^23\<close> is not a float64, and
  \<^verbatim>\<open>math.Pow10(23)\<close> is \<open>99999999999999991611392\<close>.
\<close>

theorem C4_counterexample:
  "setDenom QueryError
     \<lparr>globals.Denom = ''umee'', DenomCoefficient = Finite 1, DenomExponent = 23, queries = 0\<rparr>
   = (Inr (),
     \<lparr>globals.Denom = ''umee'', DenomCoefficient = Finite 99999999999999991611392,
      DenomExponent = 23, queries = 0\<rparr>)
   \<and> Finite 99999999999999991611392 \<noteq> Finite (10 ^ 23)"
  by (simp add: setDenom_def checkAndHandleDenomInfoProvidedByUser_def f64_ne_one Pow10_23)

text \<open>
  C5. When the override handling falls through (no symbol, or a symbol with coefficient
  and exponent at their defaults) and the node answers with a registry \<open>m # ms\<close> of any
  length, \<^verbatim>\<open>setDenom\<close> scans the units of \<open>m\<close>, the entry at index 0, and nothing of \<open>ms\<close>:
  the run is the one on the registry \<open>[m]\<close>. With no symbol given, the symbol is \<open>m\<close>'s
  \<^verbatim>\<open>Display\<close> from then on.
\<close>

theorem C5_first_registry_entry:
  assumes "globals.Denom g = [] \<or> (DenomCoefficient g = Finite 1 \<and> DenomExponent g = 0)"
  shows "setDenom (Metadatas (m # ms)) g =
           scanDenomUnits (DenomUnits m)
             (g\<lparr>queries := Suc (queries g),
                globals.Denom := (if globals.Denom g = [] then Display m else globals.Denom g)\<rparr>)
         \<and> setDenom (Metadatas (m # ms)) g = setDenom (Metadatas [m]) g
         \<and> (globals.Denom g = [] \<longrightarrow>
              globals.Denom (snd (setDenom (Metadatas (m # ms)) g)) = Display m)"
  using setDenom_query [OF check_falls_through [OF assms]]
  by (simp add: scanDenomUnits_keeps)

theorem C5_witness:
  "setDenom
     (Metadatas [\<lparr>DenomUnits = [\<lparr>DenomUnit.Denom = ''uumee'', Exponent = 0\<rparr>,
                                 \<lparr>DenomUnit.Denom = ''umee'', Exponent = 6\<rparr>],
                  Display = ''umee''\<rparr>,
                 \<lparr>DenomUnits = [\<lparr>DenomUnit.Denom = ''uatom'', Exponent = 0\<rparr>,
                                 \<lparr>DenomUnit.Denom = ''umee'', Exponent = 18\<rparr>],
                  Display = ''uatom''\<rparr>])
     \<lparr>globals.Denom = [], DenomCoefficient = Finite 1, DenomExponent = 0, queries = 0\<rparr>
   = (Inr (), \<lparr>globals.Denom = ''umee'', DenomCoefficient = Finite 1000000, DenomExponent = 0,
                queries = 1\<rparr>)"
proof -
  have p: "Pow10 6 = Finite 1000000" using Pow10_exact [of 6] by simp
  show ?thesis
    using C5_first_registry_entry
      [of "\<lparr>globals.Denom = [], DenomCoefficient = Finite 1, DenomExponent = 0, queries = 0\<rparr>"
          "\<lparr>DenomUnits = [\<lparr>DenomUnit.Denom = ''uumee'', Exponent = 0\<rparr>,
                           \<lparr>DenomUnit.Denom = ''umee'', Exponent = 6\<rparr>],
            Display = ''umee''\<rparr>"
          "[\<lparr>DenomUnits = [\<lparr>DenomUnit.Denom = ''uatom'', Exponent = 0\<rparr>,
                           \<lparr>DenomUnit.Denom = ''umee'', Exponent = 18\<rparr>],
             Display = ''uatom''\<rparr>]"]
    by (simp add: p)
qed

text \<open>
  C6. A symbol given by the operator (with coefficient and exponent at their defaults, so
  that the node is asked) that is the name of no unit of the first registry entry:
  \<^verbatim>\<open>setDenom\<close> ends the process with "Could not find the denom info", and the metadata query
  is the only query sent.
\<close>

theorem C6_symbol_not_in_units_fatal:
  assumes "globals.Denom g \<noteq> []" and "DenomCoefficient g = Finite 1" and "DenomExponent g = 0"
    and "globals.Denom g \<notin> DenomUnit.Denom ` set (DenomUnits m)"
  shows "setDenom (Metadatas (m # ms)) g =
           (Inl CouldNotFindDenomInfo, g\<lparr>queries := Suc (queries g)\<rparr>)"
proof -
  have "setDenom (Metadatas (m # ms)) g =
          scanDenomUnits (DenomUnits m) (g\<lparr>queries := Suc (queries g)\<rparr>)"
    using setDenom_query [OF check_defaults [OF assms(2,3)]] assms(1) by simp
  then show ?thesis using assms(4) by (simp add: scanDenomUnits_absent)
qed

theorem C6_witness:
  "setDenom
     (Metadatas [\<lparr>DenomUnits = [\<lparr>DenomUnit.Denom = ''uumee'', Exponent = 0\<rparr>,
                                 \<lparr>DenomUnit.Denom = ''umee'', Exponent = 6\<rparr>],
                  Display = ''umee''\<rparr>])
     \<lparr>globals.Denom = ''atom'', DenomCoefficient = Finite 1, DenomExponent = 0, queries = 0\<rparr>
   = (Inl CouldNotFindDenomInfo,
      \<lparr>globals.Denom = ''atom'', DenomCoefficient = Finite 1, DenomExponent = 0, queries = 1\<rparr>)"
  using C6_symbol_not_in_units_fatal
    [of "\<lparr>globals.Denom = ''atom'', DenomCoefficient = Finite 1, DenomExponent = 0, queries = 0\<rparr>"
        "\<lparr>DenomUnits = [\<lparr>DenomUnit.Denom = ''uumee'', Exponent = 0\<rparr>,
                         \<lparr>DenomUnit.Denom = ''umee'', Exponent = 6\<rparr>],
          Display = ''umee''\<rparr>"
        "[]"]
  by simp

text \<open>
  C7, as amended. When the override handling falls through (no symbol, or a symbol with
  coefficient and exponent at their defaults) and the node's registry is empty, \<^verbatim>\<open>setDenom\<close>
  ends the process with "No denom infos", after the one metadata query.
\<close>

theorem C7_empty_registry_fatal_when_queried:
  assumes "globals.Denom g = [] \<or> (DenomCoefficient g = Finite 1 \<and> DenomExponent g = 0)"
  shows "setDenom (Metadatas []) g = (Inl NoDenomInfos, g\<lparr>queries := Suc (queries g)\<rparr>)"
  using setDenom_query [OF check_falls_through [OF assms]] by simp

theorem C7_witness:
  "setDenom (Metadatas [])
     \<lparr>globals.Denom = [], DenomCoefficient = Finite 1, DenomExponent = 0, queries = 0\<rparr>
   = (Inl NoDenomInfos,
      \<lparr>globals.Denom = [], DenomCoefficient = Finite 1, DenomExponent = 0, queries = 1\<rparr>)"
  using C7_empty_registry_fatal_when_queried
    [of "\<lparr>globals.Denom = [], DenomCoefficient = Finite 1, DenomExponent = 0, queries = 0\<rparr>"]
  by simp

text \<open>
  The claim C7 as stated fails: with a symbol and a coefficient supplied the node is never
  asked, so an empty registry does not stop \<^verbatim>\<open>setDenom\<close> from returning a configuration.
\<close>

theorem C7_counterexample:
  "setDenom (Metadatas [])
     \<lparr>globals.Denom = ''umee'', DenomCoefficient = Finite 1000000, DenomExponent = 0, queries = 0\<rparr>
   = (Inr (),
      \<lparr>globals.Denom = ''umee'', DenomCoefficient = Finite 1000000, DenomExponent = 0, queries = 0\<rparr>)"
  by (simp add: setDenom_def checkAndHandleDenomInfoProvidedByUser_def f64_ne_one)

text \<open>
  C8. With an empty symbol the override handling returns "not handled" and changes nothing,
  whatever coefficient and exponent hold; \<^verbatim>\<open>setDenom\<close> then sends the metadata query, never
  ends with the "both provided" message, and its outcome and the coefficient it resolves do
  not depend on the coefficient \<open>c\<close> and exponent \<open>e\<close> that were supplied.
\<close>

theorem C8_empty_symbol_skips_overrides:
  assumes "globals.Denom g = []"
  shows "checkAndHandleDenomInfoProvidedByUser (g\<lparr>DenomCoefficient := c, DenomExponent := e\<rparr>)
           = (Inr False, g\<lparr>DenomCoefficient := c, DenomExponent := e\<rparr>)
         \<and> queries (snd (setDenom node (g\<lparr>DenomCoefficient := c, DenomExponent := e\<rparr>)))
             = Suc (queries g)
         \<and> fst (setDenom node (g\<lparr>DenomCoefficient := c, DenomExponent := e\<rparr>)) \<noteq> Inl BothProvided
         \<and> fst (setDenom node (g\<lparr>DenomCoefficient := c, DenomExponent := e\<rparr>)) = fst (setDenom node g)
         \<and> (fst (setDenom node g) = Inr () \<longrightarrow>
              DenomCoefficient (snd (setDenom node (g\<lparr>DenomCoefficient := c, DenomExponent := e\<rparr>)))
                = DenomCoefficient (snd (setDenom node g)))"
proof -
  let ?h = "g\<lparr>DenomCoefficient := c, DenomExponent := e\<rparr>"
  have h: "globals.Denom ?h = []" using assms by simp
  have ch: "checkAndHandleDenomInfoProvidedByUser ?h = (Inr False, ?h)"
    using h by (rule check_no_symbol)
  have cg: "checkAndHandleDenomInfoProvidedByUser g = (Inr False, g)"
    using assms by (rule check_no_symbol)
  show ?thesis
    unfolding setDenom_query [OF ch] setDenom_query [OF cg] ch
    using assms
    by (simp add: scanDenomUnits_find split: node_reply.split list.split option.split)
qed

theorem C8_witness:
  "checkAndHandleDenomInfoProvidedByUser
     \<lparr>globals.Denom = [], DenomCoefficient = Finite 1000000, DenomExponent = 6, queries = 0\<rparr>
   = (Inr False,
      \<lparr>globals.Denom = [], DenomCoefficient = Finite 1000000, DenomExponent = 6, queries = 0\<rparr>)
   \<and> setDenom
     (Metadatas [\<lparr>DenomUnits = [\<lparr>DenomUnit.Denom = ''uumee'', Exponent = 0\<rparr>,
                                 \<lparr>DenomUnit.Denom = ''umee'', Exponent = 6\<rparr>],
                  Display = ''uumee''\<rparr>])
     \<lparr>globals.Denom = [], DenomCoefficient = Finite 1000000, DenomExponent = 6, queries = 0\<rparr>
   = (Inr (), \<lparr>globals.Denom = ''uumee'', DenomCoefficient = Finite 1, DenomExponent = 6,
                queries = 1\<rparr>)"
proof -
  let ?node = "Metadatas [\<lparr>DenomUnits = [\<lparr>DenomUnit.Denom = ''uumee'', Exponent = 0\<rparr>,
                                 \<lparr>DenomUnit.Denom = ''umee'', Exponent = 6\<rparr>],
                  Display = ''uumee''\<rparr>]"
  let ?g = "\<lparr>globals.Denom = [], DenomCoefficient = Finite 1, DenomExponent = 0, queries = 0\<rparr>"
  have run: "setDenom ?node
      \<lparr>globals.Denom = [], DenomCoefficient = Finite 1000000, DenomExponent = 6, queries = 0\<rparr>
    = (Inr (), \<lparr>globals.Denom = ''uumee'', DenomCoefficient = Finite 1, DenomExponent = 6,
                queries = 1\<rparr>)"
    by (simp add: setDenom_def checkAndHandleDenomInfoProvidedByUser_def Pow10_zero)
  show ?thesis
    using C8_empty_symbol_skips_overrides
      [where g = ?g and c = "Finite 1000000" and e = 6 and node = ?node] run
    by simp
qed




text \<open>
  C10. In node-query resolution the units of the first entry are scanned in list order:
  if \<open>u\<close> is the first unit whose name is the resolved symbol (no unit of \<open>pre\<close>, the units
  before it, has that name), the coefficient is \<^verbatim>\<open>math.Pow10\<close> of \<open>u\<close>'s exponent, whatever
  the units \<open>post\<close> after it are, units of the same name with another exponent included.
\<close>

theorem C10_first_matching_unit_wins:
  assumes "globals.Denom g = [] \<or> (DenomCoefficient g = Finite 1 \<and> DenomExponent g = 0)"
    and "symbol = (if globals.Denom g = [] then Display m else globals.Denom g)"
    and "DenomUnits m = pre @ u # post"
    and "\<forall>v\<in>set pre. DenomUnit.Denom v \<noteq> symbol"
    and "DenomUnit.Denom u = symbol"
  shows "setDenom (Metadatas (m # ms)) g =
           (Inr (), g\<lparr>queries := Suc (queries g), globals.Denom := symbol,
                      DenomCoefficient := Pow10 (uint (Exponent u))\<rparr>)"
proof -
  let ?g = "g\<lparr>queries := Suc (queries g), globals.Denom := symbol\<rparr>"
  have "setDenom (Metadatas (m # ms)) g = scanDenomUnits (pre @ u # post) ?g"
    using setDenom_query [OF check_falls_through [OF assms(1)]] assms(2,3) by simp
  also have "\<dots> = (Inr (), ?g\<lparr>DenomCoefficient := Pow10 (uint (Exponent u))\<rparr>)"
    using assms(4,5) by (intro scanDenomUnits_first) simp_all
  finally show ?thesis .
qed

text \<open>
  Witness for C10: \<^verbatim>\<open>umee\<close> is listed with exponent 6 and again with exponent 18; the
  coefficient is \<open>10^6\<close>.
\<close>

theorem C10_witness:
  "setDenom
     (Metadatas [\<lparr>DenomUnits = [\<lparr>DenomUnit.Denom = ''uumee'', Exponent = 0\<rparr>,
                                 \<lparr>DenomUnit.Denom = ''umee'', Exponent = 6\<rparr>,
                                 \<lparr>DenomUnit.Denom = ''umee'', Exponent = 18\<rparr>],
                  Display = ''uumee''\<rparr>])
     \<lparr>globals.Denom = ''umee'', DenomCoefficient = Finite 1, DenomExponent = 0, queries = 0\<rparr>
   = (Inr (), \<lparr>globals.Denom = ''umee'', DenomCoefficient = Finite 1000000, DenomExponent = 0,
                queries = 1\<rparr>)"
proof -
  have p: "Pow10 6 = Finite 1000000" using Pow10_exact [of 6] by simp
  show ?thesis
    using C10_first_matching_unit_wins
      [where g = "\<lparr>globals.Denom = ''umee'', DenomCoefficient = Finite 1, DenomExponent = 0, queries = 0\<rparr>"
         and symbol = "''umee''"
         and m = "\<lparr>DenomUnits = [\<lparr>DenomUnit.Denom = ''uumee'', Exponent = 0\<rparr>,
                                  \<lparr>DenomUnit.Denom = ''umee'', Exponent = 6\<rparr>,
                                  \<lparr>DenomUnit.Denom = ''umee'', Exponent = 18\<rparr>],
                   Display = ''uumee''\<rparr>"
         and pre = "[\<lparr>DenomUnit.Denom = ''uumee'', Exponent = 0\<rparr>]"
         and u = "\<lparr>DenomUnit.Denom = ''umee'', Exponent = 6\<rparr>"
         and post = "[\<lparr>DenomUnit.Denom = ''umee'', Exponent = 18\<rparr>]"
         and ms = "[]"]
    by (simp add: p)
qed

end
